theory Spec2Isabelle
  imports Complex_Main "HOL-Library.Multiset"
begin

section \<open>Engagement scoring and performance classification of the YouTube strategy dashboard\<close>

text \<open>
  The development embeds the numeric core of \<^verbatim>\<open>services/youtubeService.ts\<close>, of the
  utility module with \<^verbatim>\<open>parseDuration\<close> and \<^verbatim>\<open>filterByVideoType\<close>, and of the
  \<^verbatim>\<open>handleSearch\<close> callback of \<^verbatim>\<open>App.tsx\<close>.

  Numbers. A JavaScript \<^verbatim>\<open>number\<close> is an IEEE double. The counters of a video are the
  results of \<^verbatim>\<open>parseInt\<close> and are modelled as \<^typ>\<open>int\<close>; every quotient the code
  forms from them is modelled as an exact rational (\<^typ>\<open>rat\<close>), so the rounding error
  of the double arithmetic is not part of the model. Comparisons of a percentile with the
  thresholds 10, 30, 60 and 80 and the two-decimal rounding are stated on these exact
  values.
\<close>

subsection \<open>Data model (\<^verbatim>\<open>types.ts\<close>)\<close>

text \<open>
  \<^verbatim>\<open>VideoData\<close>. The fields \<^verbatim>\<open>thumbnail\<close>, \<^verbatim>\<open>publishedAt\<close>, \<^verbatim>\<open>description\<close>,
  \<^verbatim>\<open>channelId\<close> and \<^verbatim>\<open>channelTitle\<close> are strings that no function below reads; they
  are left out. The field \<^verbatim>\<open>id\<close> is called \<open>vid\<close> here.
\<close>

record VideoData =
  vid :: string
  title :: string
  viewCount :: int
  likeCount :: int
  commentCount :: int
  duration :: int
  popularityScore :: rat

text \<open>
  \<^verbatim>\<open>VideoTypeFilter.ALL\<close> is written \<open>ALL_TYPES\<close>: the name \<open>ALL\<close> is taken by the
  quantifier of the logic.
\<close>

datatype VideoTypeFilter = ALL_TYPES | SHORTS | LONG


datatype ShortsPerformance = VIRAL | EXCELLENT | GOOD | AVERAGE | POOR

record ShortsData = VideoData +
  performance :: ShortsPerformance
  engagementRate :: rat
  retentionScore :: "rat option"
  hookEffectiveness :: "rat option"

subsection \<open>Popularity score (\<^verbatim>\<open>getVideoDetails\<close>, lines 134 to 156)\<close>

text \<open>
  \<^verbatim>\<open>const score = viewCount > 0 ? ((likeCount * 0.6 + commentCount * 0.4) / viewCount) * 1000 : 0;\<close>
\<close>

definition score :: "int \<Rightarrow> int \<Rightarrow> int \<Rightarrow> rat" where
  "score v l c =
     (if v > 0
      then ((of_int l * (6 / 10) + of_int c * (4 / 10)) / of_int v) * 1000
      else 0)"

text \<open>
  \<^verbatim>\<open>parseFloat(x.toFixed(2))\<close>: \<^verbatim>\<open>toFixed\<close> treats a negative argument through its
  absolute value and picks the integer \<open>n\<close> with \<open>n / 100\<close> nearest to the argument, the
  larger one of two candidates.
\<close>

definition toFixed2 :: "rat \<Rightarrow> rat" where
  "toFixed2 x =
     (if x < 0
      then - (of_int \<lfloor>(- x) * 100 + 1 / 2\<rfloor> / 100)
      else of_int \<lfloor>x * 100 + 1 / 2\<rfloor> / 100)"

text \<open>
  The value stored in the field \<^verbatim>\<open>popularityScore\<close>; the specification calls this
  computation \<^verbatim>\<open>computePopularityScore\<close>.
\<close>

definition computePopularityScore :: "int \<Rightarrow> int \<Rightarrow> int \<Rightarrow> rat" where
  "computePopularityScore v l c = toFixed2 (score v l c)"

text \<open>
  The same computation as the constants module has it
  (\<^verbatim>\<open>calculatePopularityScore\<close>, rounded by its caller): the guard is
  \<^verbatim>\<open>viewCount === 0\<close> there.
\<close>

definition calculatePopularityScore :: "int \<Rightarrow> int \<Rightarrow> int \<Rightarrow> rat" where
  "calculatePopularityScore v l c =
     (if v = 0 then 0
      else ((of_int l * (6 / 10) + of_int c * (4 / 10)) / of_int v) * 1000)"




subsection \<open>Shorts analysis (\<^verbatim>\<open>analyzeShortsPerformance\<close>)\<close>

text \<open>
  The object built for every short (lines 485 to 507): the video's fields, the three
  derived ratios and the provisional grade \<^verbatim>\<open>AVERAGE\<close>. The optional argument
  \<^verbatim>\<open>subscriberCount\<close> is \<open>None\<close> when it is not passed.
\<close>

definition withEngagement :: "int option \<Rightarrow> VideoData \<Rightarrow> ShortsData" where
  "withEngagement subscriberCount video =
     \<lparr> vid = vid video,
       title = title video,
       viewCount = viewCount video,
       likeCount = likeCount video,
       commentCount = commentCount video,
       duration = duration video,
       popularityScore = popularityScore video,
       performance = AVERAGE,
       engagementRate =
         (if viewCount video > 0
          then of_int (likeCount video + commentCount video) / of_int (viewCount video)
          else 0),
       retentionScore =
         (case subscriberCount of
            None \<Rightarrow> None
          | Some n \<Rightarrow>
              if n \<noteq> 0 \<and> n > 0
              then Some (min (of_int (viewCount video) / of_int n) 1)
              else None),
       hookEffectiveness =
         Some (if viewCount video > 0
               then (of_int (likeCount video + commentCount video * 2)
                     / of_int (viewCount video)) * 100
               else 0) \<rparr>"

text \<open>
  \<^verbatim>\<open>[...shortsWithEngagement].sort((a, b) => b.engagementRate - a.engagementRate)\<close>:
  a copy is sorted, and \<^verbatim>\<open>Array.prototype.sort\<close> is stable, so equal rates keep their
  input order. \<^const>\<open>sort_key\<close> is the stable insertion sort; the negated key makes it
  descending.
\<close>

definition sortedByEngagement :: "ShortsData list \<Rightarrow> ShortsData list" where
  "sortedByEngagement shortsWithEngagement =
     sort_key (\<lambda>s. - engagementRate s) shortsWithEngagement"

text \<open>\<^verbatim>\<open>Array.prototype.findIndex\<close>: the first index whose element satisfies the test, else -1.\<close>

fun findIndex :: "('a \<Rightarrow> bool) \<Rightarrow> 'a list \<Rightarrow> int" where
  "findIndex P [] = - 1"
| "findIndex P (x # xs) =
     (if P x then 0
      else (let r = findIndex P xs in if r < 0 then - 1 else r + 1))"

text \<open>The body of the final \<^verbatim>\<open>map\<close> (lines 516 to 530): rank, percentile, grade.\<close>

definition grade :: "ShortsData list \<Rightarrow> ShortsData \<Rightarrow> ShortsPerformance" where
  "grade sortedList short =
     (let rank = findIndex (\<lambda>s. vid s = vid short) sortedList;
          percentile = (of_int rank / of_nat (length sortedList)) * (100 :: rat)
      in if percentile < 10 then VIRAL
         else if percentile < 30 then EXCELLENT
         else if percentile < 60 then GOOD
         else if percentile < 80 then AVERAGE
         else POOR)"

text \<open>Lines 509 to 537: sort a copy, then grade every element of the unsorted batch.\<close>

definition assignPerformance :: "ShortsData list \<Rightarrow> ShortsData list" where
  "assignPerformance shortsWithEngagement =
     (let sortedList = sortedByEngagement shortsWithEngagement
      in map (\<lambda>short. short\<lparr>performance := grade sortedList short\<rparr>) shortsWithEngagement)"

definition analyzeShortsPerformance :: "VideoData list \<Rightarrow> int option \<Rightarrow> ShortsData list" where
  "analyzeShortsPerformance videos subscriberCount =
     (let shorts = filter (\<lambda>v. duration v > 0 \<and> duration v \<le> 60) videos
      in if length shorts = 0 then []
         else assignPerformance (map (withEngagement subscriberCount) shorts))"

text \<open>
  The threshold table in the specification's words: the percentile is a fraction in
  \<open>[0, 1)\<close> and the bounds are 0.10, 0.30, 0.60 and 0.80.
\<close>

definition specTier :: "rat \<Rightarrow> ShortsPerformance" where
  "specTier p =
     (if p < 10 / 100 then VIRAL
      else if p < 30 / 100 then EXCELLENT
      else if p < 60 / 100 then GOOD
      else if p < 80 / 100 then AVERAGE
      else POOR)"


subsection \<open>Shorts summary (\<^verbatim>\<open>generateShortsSummary\<close>)\<close>

text \<open>
  The recommendation texts are Korean sentences, some with a number formatted into
  them. A constructor stands for the sentence, its argument for the number before
  \<^verbatim>\<open>toFixed\<close> formats it.
\<close>

datatype recommendation =
    NoShorts
  | WeakViralRate
  | StrongViralRate rat
  | LowEngagement
  | HighEngagement rat
  | ManyPoor rat
  | FewShorts
  | TopShortsDuration rat
  | StablePerformance

record ShortsSummary =
  totalShorts :: nat
  avgViews :: int
  avgEngagement :: rat
  viralCount :: nat
  poorCount :: nat
  bestPerformer :: "ShortsData option"
  worstPerformer :: "ShortsData option"
  recommendations :: "recommendation list"

text \<open>An indexed read \<^verbatim>\<open>xs[i]\<close>: \<open>None\<close> is \<^verbatim>\<open>undefined\<close>, the value out of range.\<close>

definition itemAt :: "'a list \<Rightarrow> int \<Rightarrow> 'a option" where
  "itemAt xs i = (if 0 \<le> i \<and> i < int (length xs) then Some (xs ! nat i) else None)"

text \<open>
  \<^verbatim>\<open>[...shorts].sort((a, b) => b.viewCount - a.viewCount)\<close>, stable and descending.
\<close>

definition sortedByViews :: "ShortsData list \<Rightarrow> ShortsData list" where
  "sortedByViews shorts = sort_key (\<lambda>s. - viewCount s) shorts"

text \<open>
  The function, line by line; \<^verbatim>\<open>Math.round\<close> is \<open>\<lfloor>x + 1/2\<rfloor>\<close>. The unused local
  \<^verbatim>\<open>excellentCount\<close> is left out.
\<close>

definition generateShortsSummary :: "ShortsData list \<Rightarrow> ShortsSummary" where
  "generateShortsSummary shorts =
     (if length shorts = 0
      then \<lparr> totalShorts = 0, avgViews = 0, avgEngagement = 0, viralCount = 0,
             poorCount = 0, bestPerformer = None, worstPerformer = None,
             recommendations = [NoShorts] \<rparr>
      else
        let n = (of_nat (length shorts) :: rat);
            totalViews = foldl (\<lambda>sum s. sum + viewCount s) 0 shorts;
            totalEngagement = foldl (\<lambda>sum s. sum + engagementRate s) 0 shorts;
            avgViews' = of_int totalViews / n;
            avgEngagement' = totalEngagement / n;
            viralCount' = length (filter (\<lambda>s. performance s = VIRAL) shorts);
            poorCount' = length (filter (\<lambda>s. performance s = POOR) shorts);
            byViews = sortedByViews shorts;
            bestPerformer' = itemAt byViews 0;
            worstPerformer' = itemAt byViews (int (length byViews) - 1);
            viralRate = (of_nat viralCount' / n) * 100;
            r1 = (if viralRate < 5 then [WeakViralRate]
                  else if viralRate > 15 then [StrongViralRate viralRate]
                  else []);
            r2 = r1 @ (if avgEngagement' < 1 / 100 then [LowEngagement]
                       else if avgEngagement' > 5 / 100 then [HighEngagement (avgEngagement' * 100)]
                       else []);
            poorRate = (of_nat poorCount' / n) * 100;
            r3 = r2 @ (if poorRate > 30 then [ManyPoor poorRate] else []);
            r4 = r3 @ (if length shorts < 10 then [FewShorts] else []);
            topShorts = take 5 (filter (\<lambda>s. performance s = VIRAL \<or> performance s = EXCELLENT) shorts);
            r5 = r4 @ (if length topShorts > 0
                       then [TopShortsDuration
                               (of_int (foldl (\<lambda>sum s. sum + duration s) 0 topShorts)
                                / of_nat (length topShorts))]
                       else []);
            recommendations' = (if length r5 = 0 then r5 @ [StablePerformance] else r5)
        in \<lparr> totalShorts = length shorts,
             avgViews = \<lfloor>avgViews' + 1 / 2\<rfloor>,
             avgEngagement = avgEngagement',
             viralCount = viralCount',
             poorCount = poorCount',
             bestPerformer = bestPerformer',
             worstPerformer = worstPerformer',
             recommendations = recommendations' \<rparr>)"

subsection \<open>Filtering by video type (\<^verbatim>\<open>filterByVideoType\<close>)\<close>

definition SHORTS_MAX_SECONDS :: int where
  "SHORTS_MAX_SECONDS = 60"

definition SHORTS_EXTENDED_MAX_SECONDS :: int where
  "SHORTS_EXTENDED_MAX_SECONDS = 180"

text \<open>
  The utility function; its third parameter defaults to \<^const>\<open>SHORTS_MAX_SECONDS\<close> and
  \<^verbatim>\<open>handleSearch\<close> passes \<^const>\<open>SHORTS_EXTENDED_MAX_SECONDS\<close>. The \<^verbatim>\<open>default\<close> label
  of the \<^verbatim>\<open>switch\<close> shares the branch of \<^verbatim>\<open>ALL\<close>.
\<close>

definition filterByVideoType :: "VideoData list \<Rightarrow> VideoTypeFilter \<Rightarrow> int \<Rightarrow> VideoData list" where
  "filterByVideoType videos ty shortsMaxDuration =
     (case ty of
        SHORTS \<Rightarrow> filter (\<lambda>v. duration v > 0 \<and> duration v \<le> shortsMaxDuration) videos
      | LONG \<Rightarrow> filter (\<lambda>v. duration v > shortsMaxDuration) videos
      | ALL_TYPES \<Rightarrow> videos)"

text \<open>
  The older \<^verbatim>\<open>handleSearch\<close> filters inline (lines 77 to 81 and 98 to 102), with the
  bound 180 written out.
\<close>

definition inlineTypeFilter :: "VideoTypeFilter \<Rightarrow> VideoData list \<Rightarrow> VideoData list" where
  "inlineTypeFilter videoTypeFilter videoDetails =
     (if videoTypeFilter = SHORTS
      then filter (\<lambda>v. duration v > 0 \<and> duration v < 180) videoDetails
      else if videoTypeFilter = LONG
      then filter (\<lambda>v. duration v \<ge> 180) videoDetails
      else videoDetails)"

subsection \<open>Top and bottom videos (\<^verbatim>\<open>handleSearch\<close>, lines 83 to 90)\<close>






subsection \<open>Durations (\<^verbatim>\<open>parseDuration\<close>)\<close>

text \<open>
  Strings are lists of characters. \<^verbatim>\<open>\d\<close> is one of the ten ASCII digits, the
  characters with the codes 48 to 57.
\<close>

definition isDigit :: "char \<Rightarrow> bool" where
  "isDigit c = (48 \<le> (of_char c :: nat) \<and> (of_char c :: nat) \<le> 57)"

definition digitValue :: "char \<Rightarrow> nat" where
  "digitValue c = of_char c - 48"

definition digitsValue :: "string \<Rightarrow> nat" where
  "digitsValue ds = foldl (\<lambda>n c. n * 10 + digitValue c) 0 ds"

text \<open>
  \<^verbatim>\<open>parseInt\<close> in base 10 on a string without sign or leading blanks, which is all the
  parser gives it: the value of the longest prefix of digits, and \<^verbatim>\<open>NaN\<close> (\<open>None\<close>)
  when there is none. \<^verbatim>\<open>parseInt(undefined)\<close> is \<^verbatim>\<open>NaN\<close> as well. The value is a
  natural number of any size; the loss of precision of a double above \<open>2^53\<close> is not
  modelled.
\<close>

definition parseInt :: "string \<Rightarrow> nat option" where
  "parseInt s =
     (let ds = takeWhile isDigit s
      in if ds = [] then None else Some (digitsValue ds))"

definition parseIntOpt :: "string option \<Rightarrow> nat option" where
  "parseIntOpt m = (case m of None \<Rightarrow> None | Some s \<Rightarrow> parseInt s)"

text \<open>\<^verbatim>\<open>x || 0\<close> on a number: \<^verbatim>\<open>NaN\<close> and \<open>0\<close> are falsy.\<close>

definition orZero :: "nat option \<Rightarrow> nat" where
  "orZero x = (case x of None \<Rightarrow> 0 | Some n \<Rightarrow> if n = 0 then 0 else n)"

text \<open>
  \<^verbatim>\<open>duration.match(/PT(\d+H)?(\d+M)?(\d+S)?/)\<close>. The pattern is not anchored, and after
  \<^verbatim>\<open>PT\<close> every part of it may match the empty string, so the match starts at the
  leftmost \<^verbatim>\<open>PT\<close> of the string and fails only when there is none. \<open>afterPT\<close> returns
  what follows that \<^verbatim>\<open>PT\<close>.
\<close>

fun afterPT :: "string \<Rightarrow> string option" where
  "afterPT [] = None"
| "afterPT [c] = None"
| "afterPT (c # d # cs) =
     (if c = CHR ''P'' \<and> d = CHR ''T'' then Some cs else afterPT (d # cs))"

text \<open>
  One optional group \<^verbatim>\<open>(\d+X)?\<close> at the head of \<open>s\<close>: \<^verbatim>\<open>\d+\<close> takes every digit
  there is, and giving digits back cannot help, since the character after a shorter run
  is a digit and not the marker. The result is the captured text (\<open>None\<close> is
  \<^verbatim>\<open>undefined\<close>) and the rest of the input.
\<close>

definition group :: "char \<Rightarrow> string \<Rightarrow> string option \<times> string" where
  "group marker s =
     (let ds = takeWhile isDigit s
      in case dropWhile isDigit s of
           [] \<Rightarrow> (None, s)
         | c # rest \<Rightarrow>
             if ds \<noteq> [] \<and> c = marker then (Some (ds @ [marker]), rest) else (None, s))"

text \<open>
  \<^verbatim>\<open>parseDuration\<close> of \<^verbatim>\<open>services/youtubeService.ts\<close> (lines 5 to 12); its
  parameter \<^verbatim>\<open>duration\<close> is called \<open>text\<close>, the record field has the name.
\<close>

definition parseDuration :: "string \<Rightarrow> nat" where
  "parseDuration text =
     (case afterPT text of
        None \<Rightarrow> 0
      | Some r0 \<Rightarrow>
          let (m1, r1) = group CHR ''H'' r0;
              (m2, r2) = group CHR ''M'' r1;
              (m3, r3) = group CHR ''S'' r2;
              hours = orZero (parseIntOpt m1);
              minutes = orZero (parseIntOpt m2);
              seconds = orZero (parseIntOpt m3)
          in hours * 3600 + minutes * 60 + seconds)"










subsection \<open>Building a video (\<^verbatim>\<open>getVideoDetails\<close>, lines 134 to 156)\<close>

text \<open>
  An item of the API response, with its three statistics already read by
  \<^verbatim>\<open>parseInt(... || '0', 10)\<close>, and the callback that turns it into a \<^verbatim>\<open>VideoData\<close>.
\<close>

record ApiItem =
  item_id :: string
  item_title :: string
  item_viewCount :: int
  item_likeCount :: int
  item_commentCount :: int
  item_duration :: string

definition videoOfItem :: "ApiItem \<Rightarrow> VideoData" where
  "videoOfItem item =
     \<lparr> vid = item_id item,
       title = item_title item,
       viewCount = item_viewCount item,
       likeCount = item_likeCount item,
       commentCount = item_commentCount item,
       duration = int (parseDuration (item_duration item)),
       popularityScore =
         computePopularityScore (item_viewCount item) (item_likeCount item) (item_commentCount item) \<rparr>"

definition getVideoDetails_items :: "ApiItem list \<Rightarrow> VideoData list" where
  "getVideoDetails_items items = map videoOfItem items"

subsection \<open>Example data\<close>

text \<open>
  The three items of the end-to-end scenario, as shorts of 30 seconds, and a batch of
  ten shorts whose engagement rates are all different.
\<close>

definition itemA :: ApiItem where
  "itemA = \<lparr> item_id = ''A'', item_title = ''a'', item_viewCount = 1000, item_likeCount = 100,
              item_commentCount = 50, item_duration = ''PT30S'' \<rparr>"

definition itemB :: ApiItem where
  "itemB = \<lparr> item_id = ''B'', item_title = ''b'', item_viewCount = 1000, item_likeCount = 10,
              item_commentCount = 5, item_duration = ''PT30S'' \<rparr>"

definition itemC :: ApiItem where
  "itemC = \<lparr> item_id = ''C'', item_title = ''c'', item_viewCount = 1000, item_likeCount = 500,
              item_commentCount = 200, item_duration = ''PT30S'' \<rparr>"

definition scenario :: "VideoData list" where
  "scenario = getVideoDetails_items [itemA, itemB, itemC]"

definition short :: "string \<Rightarrow> int \<Rightarrow> int \<Rightarrow> ShortsData" where
  "short i v l =
     withEngagement None
       \<lparr> vid = i, title = [], viewCount = v, likeCount = l, commentCount = 0,
         duration = 30, popularityScore = computePopularityScore v l 0 \<rparr>"

definition tenShorts :: "ShortsData list" where
  "tenShorts =
     [short ''s0'' 100 5, short ''s1'' 100 9, short ''s2'' 100 1, short ''s3'' 100 7,
      short ''s4'' 100 3, short ''s5'' 100 8, short ''s6'' 100 2, short ''s7'' 100 6,
      short ''s8'' 100 4, short ''s9'' 100 0]"


text \<open>The position of a grade in the enumeration, \<^verbatim>\<open>VIRAL\<close> first and \<^verbatim>\<open>POOR\<close> last.\<close>

fun tierIndex :: "ShortsPerformance \<Rightarrow> nat" where
  "tierIndex VIRAL = 0"
| "tierIndex EXCELLENT = 1"
| "tierIndex GOOD = 2"
| "tierIndex AVERAGE = 3"
| "tierIndex POOR = 4"

text \<open>
  A video given by its id, its duration and its popularity score, for the filters and
  the top and bottom lists: three videos of 30, 200 and 0 seconds, and five videos with
  the scores 10, 50, 5, 80 and 20.
\<close>

definition video :: "string \<Rightarrow> int \<Rightarrow> rat \<Rightarrow> VideoData" where
  "video i d p =
     \<lparr> vid = i, title = [], viewCount = 0, likeCount = 0, commentCount = 0,
       duration = d, popularityScore = p \<rparr>"

definition threeDurations :: "VideoData list" where
  "threeDurations = [video ''d30'' 30 0, video ''d200'' 200 0, video ''d0'' 0 0]"


text \<open>Three shorts, the first two tied at 5 views and the third with 1 view.\<close>

definition tiedShorts :: "ShortsData list" where
  "tiedShorts = [short ''a'' 5 0, short ''b'' 5 0, short ''c'' 1 0]"


subsection \<open>Facts about rounding\<close>




lemma score_nonneg:
  assumes "0 \<le> l" and "0 \<le> c"
  shows "0 \<le> score v l c"
  using assms by (simp add: score_def)




subsection \<open>The popularity score\<close>



text \<open>
  The constants module's \<^verbatim>\<open>calculatePopularityScore\<close> computes the same score on every
  view count that is not negative.
\<close>

lemma calculatePopularityScore_agrees:
  assumes "0 \<le> v"
  shows "calculatePopularityScore v l c = score v l c"
  using assms by (simp add: calculatePopularityScore_def score_def)




subsection \<open>Facts about \<^const>\<open>findIndex\<close> and the sort\<close>

lemma findIndex_hd:
  assumes "xs \<noteq> []"
  shows "findIndex (\<lambda>s. f s = f (hd xs)) xs = 0"
  using assms by (cases xs) simp_all

lemma findIndex_nth:
  assumes "distinct (map f xs)" and "k < length xs"
  shows "findIndex (\<lambda>s. f s = f (xs ! k)) xs = int k"
  using assms
proof (induction xs arbitrary: k)
  case Nil
  then show ?case by simp
next
  case (Cons x xs)
  show ?case
  proof (cases k)
    case 0
    then show ?thesis by simp
  next
    case (Suc j)
    with Cons.prems have j: "j < length xs" and d: "distinct (map f xs)"
      and nx: "f x \<notin> f ` set xs" by simp_all
    from j nx have "f x \<noteq> f (xs ! j)" by (metis imageI nth_mem)
    moreover from Cons.IH [OF d j] have "findIndex (\<lambda>s. f s = f (xs ! j)) xs = int j" .
    ultimately show ?thesis using Suc by simp
  qed
qed

lemma set_sortedByEngagement: "set (sortedByEngagement xs) = set xs"
  by (simp add: sortedByEngagement_def)

lemma length_sortedByEngagement: "length (sortedByEngagement xs) = length xs"
  by (simp add: sortedByEngagement_def)

lemma distinct_sortedByEngagement:
  assumes "distinct (map vid xs)"
  shows "distinct (map vid (sortedByEngagement xs))"
proof -
  have "mset (map vid (sortedByEngagement xs)) = mset (map vid xs)"
    by (simp add: sortedByEngagement_def)
  then show ?thesis using assms by (metis mset_eq_imp_distinct_iff)
qed

lemma sortedByEngagement_descending:
  assumes "i \<le> j" and "j < length xs"
  shows "engagementRate (sortedByEngagement xs ! j) \<le> engagementRate (sortedByEngagement xs ! i)"
proof -
  let ?m = "map (\<lambda>s. - engagementRate s) (sortedByEngagement xs)"
  have s: "sorted ?m"
    by (simp add: sortedByEngagement_def)
  have len: "j < length ?m"
    using assms(2) by (simp add: length_sortedByEngagement)
  from sorted_nth_mono [OF s assms(1) len] have le: "?m ! i \<le> ?m ! j" .
  have "i < length (sortedByEngagement xs)" and "j < length (sortedByEngagement xs)"
    using assms by (simp_all add: length_sortedByEngagement)
  with le show ?thesis by simp
qed

lemma sortedByEngagement_stable:
  "filter (\<lambda>s. engagementRate s = r) (sortedByEngagement xs)
   = filter (\<lambda>s. engagementRate s = r) xs"
proof -
  have "filter (\<lambda>s. - engagementRate s = - r) (sort_key (\<lambda>s. - engagementRate s) xs)
        = filter (\<lambda>s. - engagementRate s = - r) xs"
    by (rule sort_key_stable)
  then show ?thesis by (simp add: sortedByEngagement_def)
qed

lemma grade_rank:
  assumes "distinct (map vid ys)" and "k < length ys"
  shows "grade ys (ys ! k) = specTier (of_nat k / of_nat (length ys))"
proof -
  have r: "findIndex (\<lambda>s. vid s = vid (ys ! k)) ys = int k"
    using assms by (rule findIndex_nth)
  have n: "(0::rat) < of_nat (length ys)" using assms(2) by (cases ys) simp_all
  show ?thesis
    unfolding grade_def specTier_def Let_def r
    using n by (simp add: field_simps)
qed

lemma grade_hd:
  assumes "ys \<noteq> []"
  shows "grade ys (hd ys) = VIRAL"
  using assms by (simp add: grade_def findIndex_hd)


subsection \<open>Grades\<close>

lemma performance_assignPerformance:
  assumes "i < length batch"
  shows "performance (assignPerformance batch ! i) = grade (sortedByEngagement batch) (batch ! i)"
  using assms by (simp add: assignPerformance_def)

lemma length_assignPerformance: "length (assignPerformance batch) = length batch"
  by (simp add: assignPerformance_def)

lemma hd_sortedByEngagement_in:
  assumes "batch \<noteq> []"
  shows "hd (sortedByEngagement batch) \<in> set batch"
proof -
  have "sortedByEngagement batch \<noteq> []"
    using assms length_sortedByEngagement [of batch] by (cases "sortedByEngagement batch") auto
  then have "hd (sortedByEngagement batch) \<in> set (sortedByEngagement batch)"
    by (rule hd_in_set)
  then show ?thesis by (simp add: set_sortedByEngagement)
qed

lemma assignPerformance_has_viral:
  assumes "batch \<noteq> []"
  shows "\<exists>s \<in> set (assignPerformance batch). performance s = VIRAL"
proof -
  let ?srt = "sortedByEngagement batch"
  let ?top = "hd ?srt"
  have ne: "?srt \<noteq> []"
    using assms length_sortedByEngagement [of batch] by (cases ?srt) auto
  have "?top \<in> set batch" using assms by (rule hd_sortedByEngagement_in)
  then have "?top\<lparr>performance := grade ?srt ?top\<rparr> \<in> set (assignPerformance batch)"
    by (simp add: assignPerformance_def)
  moreover have "performance (?top\<lparr>performance := grade ?srt ?top\<rparr>) = VIRAL"
    using ne by (simp add: grade_hd)
  ultimately show ?thesis by blast
qed

text \<open>
  Claim C10. Whenever the classification produces a non-empty output, at least one
  output item has the grade \<^verbatim>\<open>VIRAL\<close>: the item ranked first has percentile 0.
\<close>

theorem analyzeShortsPerformance_has_viral:
  assumes "analyzeShortsPerformance videos subscriberCount \<noteq> []"
  shows "\<exists>s \<in> set (analyzeShortsPerformance videos subscriberCount). performance s = VIRAL"
proof -
  let ?shorts = "filter (\<lambda>v. duration v > 0 \<and> duration v \<le> 60) videos"
  let ?batch = "map (withEngagement subscriberCount) ?shorts"
  have ne: "?shorts \<noteq> []"
    using assms by (auto simp: analyzeShortsPerformance_def Let_def)
  then have eq: "analyzeShortsPerformance videos subscriberCount = assignPerformance ?batch"
    by (simp add: analyzeShortsPerformance_def Let_def)
  from ne have "?batch \<noteq> []" by simp
  then show ?thesis unfolding eq by (rule assignPerformance_has_viral)
qed

theorem analyzeShortsPerformance_has_viral_witness:
  "analyzeShortsPerformance scenario None \<noteq> []
   \<and> (\<exists>s. s \<in> set (analyzeShortsPerformance scenario None) \<and> performance s = VIRAL)"
proof -
  have ne: "analyzeShortsPerformance scenario None \<noteq> []"
    by code_simp
  from analyzeShortsPerformance_has_viral [OF ne] ne show ?thesis by blast
qed

lemma filter_eq_singleton:
  assumes "distinct ys" and "a \<in> set ys"
  shows "filter (\<lambda>i. i = a) ys = [a]"
  using assms
proof (induction ys)
  case Nil
  then show ?case by simp
next
  case (Cons y ys)
  show ?case
  proof (cases "y = a")
    case True
    with Cons.prems have "a \<notin> set ys" by simp
    then have "filter (\<lambda>i. i = a) ys = []" by (auto simp: filter_empty_conv)
    with True show ?thesis by simp
  next
    case False
    with Cons show ?thesis by simp
  qed
qed

lemma specTier_viral_tenth:
  assumes "k < 10"
  shows "specTier (of_nat k / 10) = VIRAL \<longleftrightarrow> k = 0"
proof
  assume "specTier (of_nat k / 10) = VIRAL"
  then have "(of_nat k :: rat) / 10 < 10 / 100"
    by (simp add: specTier_def split: if_splits)
  then have "(of_nat k :: rat) < 1" by simp
  then show "k = 0" by simp
next
  assume "k = 0"
  then show "specTier (of_nat k / 10) = VIRAL" by (simp add: specTier_def)
qed

lemma grade_viral_iff_ten:
  assumes d: "distinct (map vid ys)" and n: "length ys = 10" and s: "s \<in> set ys"
  shows "grade ys s = VIRAL \<longleftrightarrow> vid s = vid (hd ys)"
proof -
  from s obtain k where k: "k < length ys" and sk: "s = ys ! k"
    by (auto simp: in_set_conv_nth)
  have ne: "ys \<noteq> []" using n by auto
  have g: "grade ys s = specTier (of_nat k / 10)"
    using grade_rank [OF d k] sk n by simp
  have z: "0 < length (map vid ys)" and kk: "k < length (map vid ys)"
    using k ne by simp_all
  have "vid s = vid (hd ys) \<longleftrightarrow> map vid ys ! k = map vid ys ! 0"
    using k sk ne by (simp add: hd_conv_nth)
  also have "\<dots> \<longleftrightarrow> k = 0"
    using d kk z by (rule nth_eq_iff_index_eq)
  finally have "vid s = vid (hd ys) \<longleftrightarrow> k = 0" .
  then show ?thesis using g specTier_viral_tenth [of k] k n by simp
qed

lemma viral_of_ten:
  assumes d: "distinct (map vid batch)" and n: "length batch = 10"
  shows "map vid (filter (\<lambda>s. performance s = VIRAL) (assignPerformance batch))
         = [vid (hd (sortedByEngagement batch))]"
proof -
  let ?srt = "sortedByEngagement batch"
  let ?a = "vid (hd ?srt)"
  have ds: "distinct (map vid ?srt)" using d by (rule distinct_sortedByEngagement)
  have ns: "length ?srt = 10" using n by (simp add: length_sortedByEngagement)
  have ne: "batch \<noteq> []" using n by auto
  have iff: "grade ?srt s = VIRAL \<longleftrightarrow> vid s = ?a" if "s \<in> set batch" for s
    using that grade_viral_iff_ten [OF ds ns, of s] by (simp add: set_sortedByEngagement)
  have "map vid (filter (\<lambda>s. performance s = VIRAL) (assignPerformance batch))
        = map vid (filter (\<lambda>s. grade ?srt s = VIRAL) batch)"
    by (simp add: assignPerformance_def filter_map o_def)
  also have "\<dots> = map vid (filter (\<lambda>s. vid s = ?a) batch)"
    using iff by (metis (mono_tags, lifting) filter_cong)
  also have "\<dots> = filter (\<lambda>i. i = ?a) (map vid batch)"
    by (simp add: filter_map o_def)
  also have "\<dots> = [?a]"
  proof (rule filter_eq_singleton [OF d])
    have "hd ?srt \<in> set batch" using ne by (rule hd_sortedByEngagement_in)
    then show "?a \<in> set (map vid batch)" by simp
  qed
  finally show ?thesis .
qed

lemma top_is_strict_maximum:
  assumes de: "distinct (map engagementRate batch)" and s: "s \<in> set batch"
    and neq: "s \<noteq> hd (sortedByEngagement batch)"
  shows "engagementRate s < engagementRate (hd (sortedByEngagement batch))"
proof -
  let ?srt = "sortedByEngagement batch"
  from s have "s \<in> set ?srt" by (simp add: set_sortedByEngagement)
  then obtain k where k: "k < length ?srt" and sk: "s = ?srt ! k"
    by (metis in_set_conv_nth)
  have ne: "?srt \<noteq> []" using k by auto
  have h: "hd ?srt = ?srt ! 0" using ne by (simp add: hd_conv_nth)
  have kb: "k < length batch" using k by (simp add: length_sortedByEngagement)
  have le: "engagementRate s \<le> engagementRate (hd ?srt)"
    using sortedByEngagement_descending [of 0 k batch] kb sk h by simp
  have "mset (map engagementRate ?srt) = mset (map engagementRate batch)"
    by (simp add: sortedByEngagement_def)
  then have "distinct (map engagementRate ?srt)"
    using de by (metis mset_eq_imp_distinct_iff)
  then have inj: "inj_on engagementRate (set ?srt)"
    by (simp add: distinct_map)
  have "engagementRate s \<noteq> engagementRate (hd ?srt)"
  proof
    assume "engagementRate s = engagementRate (hd ?srt)"
    with inj \<open>s \<in> set ?srt\<close> ne have "s = hd ?srt"
      by (meson hd_in_set inj_onD)
    with neq show False by simp
  qed
  with le show ?thesis by simp
qed

text \<open>
  Claim C2. In a non-empty batch (whose ids are unique, as the data model has it) every
  item's grade is given by its percentile, its rank in the stable descending sort by
  the ranking key divided by the batch size, through the table \<^verbatim>\<open>VIRAL\<close> below 0.10,
  \<^verbatim>\<open>EXCELLENT\<close> below 0.30, \<^verbatim>\<open>GOOD\<close> below 0.60, \<^verbatim>\<open>AVERAGE\<close> below 0.80 and
  \<^verbatim>\<open>POOR\<close> otherwise. So a batch of one item yields \<^verbatim>\<open>VIRAL\<close>, and a batch of ten
  items has exactly one \<^verbatim>\<open>VIRAL\<close> item, the first of the sort, which has the strictly
  greatest key when the keys are all different.
\<close>

theorem grade_by_percentile:
  assumes "batch \<noteq> []" and "distinct (map vid batch)"
  shows "length (assignPerformance batch) = length batch
   \<and> (\<forall>i < length batch.
        (\<exists>k < length batch. sortedByEngagement batch ! k = batch ! i)
        \<and> (\<forall>k < length batch. sortedByEngagement batch ! k = batch ! i \<longrightarrow>
              performance (assignPerformance batch ! i)
              = specTier (of_nat k / of_nat (length batch))))
   \<and> map performance (assignPerformance [x]) = [VIRAL]
   \<and> (length batch = 10 \<longrightarrow>
        map vid (filter (\<lambda>s. performance s = VIRAL) (assignPerformance batch))
        = [vid (hd (sortedByEngagement batch))])
   \<and> (distinct (map engagementRate batch) \<longrightarrow>
        (\<forall>s \<in> set batch. s \<noteq> hd (sortedByEngagement batch) \<longrightarrow>
           engagementRate s < engagementRate (hd (sortedByEngagement batch))))"
proof -
  let ?srt = "sortedByEngagement batch"
  have ds: "distinct (map vid ?srt)" using assms(2) by (rule distinct_sortedByEngagement)
  have ex: "\<exists>k < length batch. ?srt ! k = batch ! i" if "i < length batch" for i
  proof -
    from that have "batch ! i \<in> set ?srt" by (simp add: set_sortedByEngagement)
    then show ?thesis
      by (metis in_set_conv_nth length_sortedByEngagement)
  qed
  have tier: "performance (assignPerformance batch ! i) = specTier (of_nat k / of_nat (length batch))"
    if "i < length batch" and "k < length batch" and "?srt ! k = batch ! i" for i k
  proof -
    have "k < length ?srt" using that(2) by (simp add: length_sortedByEngagement)
    from grade_rank [OF ds this] that(3)
    have "grade ?srt (batch ! i) = specTier (of_nat k / of_nat (length batch))"
      by (simp add: length_sortedByEngagement)
    then show ?thesis using that(1) by (simp add: performance_assignPerformance)
  qed
  have single: "map performance (assignPerformance [x]) = [VIRAL]"
    by (simp add: assignPerformance_def sortedByEngagement_def grade_def)
  have ten: "length batch = 10 \<longrightarrow>
        map vid (filter (\<lambda>s. performance s = VIRAL) (assignPerformance batch)) = [vid (hd ?srt)]"
    using viral_of_ten [OF assms(2)] by blast
  have strict: "distinct (map engagementRate batch) \<longrightarrow>
        (\<forall>s \<in> set batch. s \<noteq> hd ?srt \<longrightarrow> engagementRate s < engagementRate (hd ?srt))"
    using top_is_strict_maximum by blast
  show ?thesis
    using ex tier single ten strict by (simp add: length_assignPerformance)
qed

theorem grade_by_percentile_witness:
  "tenShorts \<noteq> [] \<and> distinct (map vid tenShorts) \<and> length tenShorts = 10
   \<and> distinct (map engagementRate tenShorts)
   \<and> sortedByEngagement tenShorts ! 3 = tenShorts ! 7
   \<and> performance (assignPerformance tenShorts ! 7) = specTier (3 / 10)
   \<and> specTier (3 / 10) = GOOD
   \<and> map vid (filter (\<lambda>s. performance s = VIRAL) (assignPerformance tenShorts)) = [''s1'']
   \<and> tenShorts ! 0 \<in> set tenShorts
   \<and> tenShorts ! 0 \<noteq> hd (sortedByEngagement tenShorts)
   \<and> engagementRate (tenShorts ! 0) < engagementRate (hd (sortedByEngagement tenShorts))"
proof -
  have h1: "tenShorts \<noteq> []" by code_simp
  have h2: "distinct (map vid tenShorts)" by code_simp
  have h3: "length tenShorts = 10" by code_simp
  have h4: "distinct (map engagementRate tenShorts)" by code_simp
  have h5: "sortedByEngagement tenShorts ! 3 = tenShorts ! 7" by code_simp
  have h6: "specTier (3 / 10) = GOOD" by code_simp
  have h7: "vid (hd (sortedByEngagement tenShorts)) = ''s1''" by code_simp
  have h8: "tenShorts ! 0 \<in> set tenShorts" using h3 by simp
  have h9: "tenShorts ! 0 \<noteq> hd (sortedByEngagement tenShorts)" by code_simp
  note t = grade_by_percentile [OF h1 h2, of "hd tenShorts"]
  from t have ranks: "\<forall>i < length tenShorts.
        (\<exists>k < length tenShorts. sortedByEngagement tenShorts ! k = tenShorts ! i)
        \<and> (\<forall>k < length tenShorts. sortedByEngagement tenShorts ! k = tenShorts ! i \<longrightarrow>
              performance (assignPerformance tenShorts ! i)
              = specTier (of_nat k / of_nat (length tenShorts)))"
    by (elim conjE)
  have i7: "7 < length tenShorts" and k3: "3 < length tenShorts"
    using h3 by simp_all
  from ranks i7 have "\<forall>k < length tenShorts. sortedByEngagement tenShorts ! k = tenShorts ! 7 \<longrightarrow>
              performance (assignPerformance tenShorts ! 7)
              = specTier (of_nat k / of_nat (length tenShorts))"
    by blast
  with k3 h5 have "performance (assignPerformance tenShorts ! 7)
              = specTier (of_nat 3 / of_nat (length tenShorts))"
    by blast
  then have c1: "performance (assignPerformance tenShorts ! 7) = specTier (3 / 10)"
    by (simp add: h3)
  from t have "length tenShorts = 10 \<longrightarrow>
        map vid (filter (\<lambda>s. performance s = VIRAL) (assignPerformance tenShorts))
        = [vid (hd (sortedByEngagement tenShorts))]"
    by (elim conjE)
  with h3 h7 have c2:
    "map vid (filter (\<lambda>s. performance s = VIRAL) (assignPerformance tenShorts)) = [''s1'']"
    by simp
  from t have "distinct (map engagementRate tenShorts) \<longrightarrow>
        (\<forall>s \<in> set tenShorts. s \<noteq> hd (sortedByEngagement tenShorts) \<longrightarrow>
           engagementRate s < engagementRate (hd (sortedByEngagement tenShorts)))"
    by (elim conjE)
  with h4 h8 h9 have c3:
    "engagementRate (tenShorts ! 0) < engagementRate (hd (sortedByEngagement tenShorts))"
    by blast
  from h1 h2 h3 h4 h5 h6 h8 h9 c1 c2 c3 show ?thesis by (intro conjI)
qed

subsection \<open>The end-to-end scenario\<close>

text \<open>
  Claim C3, as the specification states it, fails: for the items \<open>A\<close> and \<open>B\<close> the score
  is not 86.0 and not 8.6.
\<close>

theorem scenario_scores_counterexample:
  "map vid scenario = [''A'', ''B'', ''C'']
   \<and> popularityScore (scenario ! 0) \<noteq> 86
   \<and> popularityScore (scenario ! 1) \<noteq> 86 / 10"
  by code_simp

text \<open>
  Claim C3, amended. For the batch \<open>A\<close> (1000 views, 100 likes, 50 comments), \<open>B\<close> (1000,
  10, 5) and \<open>C\<close> (1000, 500, 200) the scores are 80, 8 and 380, and the classification
  gives \<open>C\<close> the grade \<^verbatim>\<open>VIRAL\<close>, \<open>A\<close> the grade \<^verbatim>\<open>GOOD\<close> and \<open>B\<close> the grade
  \<^verbatim>\<open>AVERAGE\<close>, the lowest of the three.
\<close>

theorem scenario_scores:
  "map vid scenario = [''A'', ''B'', ''C'']
   \<and> map popularityScore scenario = [80, 8, 380]
   \<and> map (\<lambda>s. (vid s, performance s)) (analyzeShortsPerformance scenario None)
       = [(''A'', GOOD), (''B'', AVERAGE), (''C'', VIRAL)]
   \<and> tierIndex VIRAL < tierIndex AVERAGE \<and> tierIndex GOOD < tierIndex AVERAGE"
  by code_simp

subsection \<open>Filtering by video type\<close>

text \<open>
  The inline filter of the older \<^verbatim>\<open>handleSearch\<close> is the utility function at the
  threshold 179: durations are whole seconds.
\<close>

lemma inlineTypeFilter_is_filterByVideoType:
  "inlineTypeFilter ty videos = filterByVideoType videos ty 179"
proof (cases ty)
  case ALL_TYPES
  then show ?thesis by (simp add: inlineTypeFilter_def filterByVideoType_def)
next
  case SHORTS
  have "(\<lambda>v::VideoData. duration v > 0 \<and> duration v < 180)
        = (\<lambda>v. duration v > 0 \<and> duration v \<le> 179)"
    by (rule ext) auto
  with SHORTS show ?thesis by (simp add: inlineTypeFilter_def filterByVideoType_def)
next
  case LONG
  have "(\<lambda>v::VideoData. duration v \<ge> 180) = (\<lambda>v. duration v > 179)"
    by (rule ext) auto
  with LONG show ?thesis by (simp add: inlineTypeFilter_def filterByVideoType_def)
qed

text \<open>
  Claim C5. For every list and every threshold, the filter in mode \<^verbatim>\<open>SHORTS\<close> returns
  exactly the items with \<open>0 < duration \<le> threshold\<close>, in mode \<^verbatim>\<open>LONG\<close> exactly the
  items with \<open>duration > threshold\<close>, and in mode \<^verbatim>\<open>ALL\<close> the input itself. For a
  positive threshold an item whose duration equals it is kept by \<^verbatim>\<open>SHORTS\<close> and
  dropped by \<^verbatim>\<open>LONG\<close>, and for a threshold that is not negative an item of duration
  0 is in neither output.
\<close>

theorem filterByVideoType_modes:
  "filterByVideoType videos SHORTS t = filter (\<lambda>v. 0 < duration v \<and> duration v \<le> t) videos
   \<and> filterByVideoType videos LONG t = filter (\<lambda>v. duration v > t) videos
   \<and> filterByVideoType videos ALL_TYPES t = videos
   \<and> (0 < t \<and> v \<in> set videos \<and> duration v = t \<longrightarrow>
        v \<in> set (filterByVideoType videos SHORTS t)
        \<and> v \<notin> set (filterByVideoType videos LONG t))
   \<and> (0 \<le> t \<and> duration w = 0 \<longrightarrow>
        w \<notin> set (filterByVideoType videos SHORTS t)
        \<and> w \<notin> set (filterByVideoType videos LONG t))"
  by (auto simp: filterByVideoType_def)

theorem filterByVideoType_modes_witness:
  "(0::int) < 60
   \<and> filterByVideoType threeDurations SHORTS 60 = [video ''d30'' 30 0]
   \<and> filterByVideoType threeDurations LONG 60 = [video ''d200'' 200 0]
   \<and> filterByVideoType threeDurations ALL_TYPES 60 = threeDurations
   \<and> duration (video ''d0'' 0 0) = 0
   \<and> video ''d0'' 0 0 \<notin> set (filterByVideoType threeDurations SHORTS 60)
   \<and> video ''d0'' 0 0 \<notin> set (filterByVideoType threeDurations LONG 60)
   \<and> video ''e60'' 60 0 \<in> set [video ''e60'' 60 0]
   \<and> duration (video ''e60'' 60 0) = 60
   \<and> video ''e60'' 60 0 \<in> set (filterByVideoType [video ''e60'' 60 0] SHORTS 60)
   \<and> video ''e60'' 60 0 \<notin> set (filterByVideoType [video ''e60'' 60 0] LONG 60)"
proof -
  have d0: "duration (video ''d0'' 0 0) = 0" and d60: "duration (video ''e60'' 60 0) = 60"
    by (simp_all add: video_def)
  have s: "filter (\<lambda>v. 0 < duration v \<and> duration v \<le> 60) threeDurations = [video ''d30'' 30 0]"
    by (simp add: threeDurations_def video_def)
  have l: "filter (\<lambda>v. duration v > 60) threeDurations = [video ''d200'' 200 0]"
    by (simp add: threeDurations_def video_def)
  note a = filterByVideoType_modes [of threeDurations 60 "video ''d0'' 0 0" "video ''d0'' 0 0"]
  note b = filterByVideoType_modes
    [of "[video ''e60'' 60 0]" 60 "video ''e60'' 60 0" "video ''e60'' 60 0"]
  from a d0 have a': "video ''d0'' 0 0 \<notin> set (filterByVideoType threeDurations SHORTS 60)
      \<and> video ''d0'' 0 0 \<notin> set (filterByVideoType threeDurations LONG 60)"
    by simp
  from b d60 have b': "video ''e60'' 60 0 \<in> set (filterByVideoType [video ''e60'' 60 0] SHORTS 60)
      \<and> video ''e60'' 60 0 \<notin> set (filterByVideoType [video ''e60'' 60 0] LONG 60)"
    by simp
  from a s l have c: "filterByVideoType threeDurations SHORTS 60 = [video ''d30'' 30 0]
      \<and> filterByVideoType threeDurations LONG 60 = [video ''d200'' 200 0]
      \<and> filterByVideoType threeDurations ALL_TYPES 60 = threeDurations"
    by simp
  from a' b' c d0 d60 show ?thesis by simp
qed

subsection \<open>The empty summary\<close>

text \<open>
  Claim C9. The summary of an empty batch is returned without an error: its counts are
  0, its mean view count and mean engagement rate are 0, its best and worst performer
  are null, and its recommendation list holds one default sentence.
\<close>

theorem generateShortsSummary_empty:
  "generateShortsSummary []
   = \<lparr> totalShorts = 0, avgViews = 0, avgEngagement = 0, viralCount = 0, poorCount = 0,
       bestPerformer = None, worstPerformer = None, recommendations = [NoShorts] \<rparr>
   \<and> recommendations (generateShortsSummary []) \<noteq> []"
  by (simp add: generateShortsSummary_def)

subsection \<open>Top and bottom videos\<close>





subsection \<open>Best and worst performer\<close>

lemma find_of_filter:
  assumes "filter P xs = a # as"
  shows "find P xs = Some a"
  using assms by (induction xs) (auto split: if_splits)

lemma sort_key_not_Nil:
  assumes "xs \<noteq> []"
  shows "sort_key f xs \<noteq> []"
proof
  assume "sort_key f xs = []"
  then have "length (sort_key f xs) = 0" by (simp only: list.size)
  then have "length xs = 0" by (simp only: length_sort)
  with assms show False by simp
qed

lemma hd_sort_key_is_first_least:
  fixes f :: "'a \<Rightarrow> 'b::linorder"
  assumes "xs \<noteq> []"
  shows "find (\<lambda>s. \<forall>y \<in> set xs. f s \<le> f y) xs = Some (hd (sort_key f xs))"
proof -
  let ?S = "sort_key f xs"
  have ne: "?S \<noteq> []" using assms by (rule sort_key_not_Nil)
  then obtain h t where S: "?S = h # t" by (cases ?S) auto
  have srt: "sorted (map f ?S)" by (rule sorted_sort_key)
  have least: "f h \<le> f y" if "y \<in> set xs" for y
  proof -
    from that have "y \<in> set ?S" by simp
    then have "y = h \<or> y \<in> set t" unfolding S by simp
    moreover have "\<forall>z \<in> set t. f h \<le> f z" using srt unfolding S by simp
    ultimately show ?thesis by auto
  qed
  have "h \<in> set ?S" unfolding S by simp
  then have hin: "h \<in> set xs" by simp
  have iff: "(\<forall>y \<in> set xs. f s \<le> f y) = (f s = f h)" if "s \<in> set xs" for s
  proof
    assume "\<forall>y \<in> set xs. f s \<le> f y"
    with hin have "f s \<le> f h" by blast
    moreover have "f h \<le> f s" using that by (rule least)
    ultimately show "f s = f h" by simp
  next
    assume "f s = f h"
    then show "\<forall>y \<in> set xs. f s \<le> f y" using least by simp
  qed
  have "filter (\<lambda>s. \<forall>y \<in> set xs. f s \<le> f y) xs = filter (\<lambda>s. f s = f h) xs"
    by (rule filter_cong [OF refl]) (rule iff)
  also have "\<dots> = filter (\<lambda>s. f s = f h) ?S" by (rule sort_key_stable [symmetric])
  also have "\<dots> = h # filter (\<lambda>s. f s = f h) t" unfolding S by simp
  finally have "find (\<lambda>s. \<forall>y \<in> set xs. f s \<le> f y) xs = Some h" by (rule find_of_filter)
  then show ?thesis unfolding S by simp
qed

lemma last_sort_key_is_last_greatest:
  fixes f :: "'a \<Rightarrow> 'b::linorder"
  assumes "xs \<noteq> []"
  shows "find (\<lambda>s. \<forall>y \<in> set xs. f y \<le> f s) (rev xs) = Some (last (sort_key f xs))"
proof -
  let ?S = "sort_key f xs"
  have ne: "?S \<noteq> []" using assms by (rule sort_key_not_Nil)
  then obtain b l where S: "?S = b @ [l]" by (cases ?S rule: rev_cases) auto
  have srt: "sorted (map f ?S)" by (rule sorted_sort_key)
  have greatest: "f y \<le> f l" if "y \<in> set xs" for y
  proof -
    from that have "y \<in> set ?S" by simp
    then have "y = l \<or> y \<in> set b" unfolding S by auto
    moreover have "\<forall>z \<in> set b. f z \<le> f l" using srt unfolding S by (simp add: sorted_append)
    ultimately show ?thesis by auto
  qed
  have "l \<in> set ?S" unfolding S by simp
  then have lin: "l \<in> set xs" by simp
  have iff: "(\<forall>y \<in> set xs. f y \<le> f s) = (f s = f l)" if "s \<in> set xs" for s
  proof
    assume "\<forall>y \<in> set xs. f y \<le> f s"
    with lin have "f l \<le> f s" by blast
    moreover have "f s \<le> f l" using that by (rule greatest)
    ultimately show "f s = f l" by simp
  next
    assume "f s = f l"
    then show "\<forall>y \<in> set xs. f y \<le> f s" using greatest by simp
  qed
  have "filter (\<lambda>s. \<forall>y \<in> set xs. f y \<le> f s) xs = filter (\<lambda>s. f s = f l) xs"
    by (rule filter_cong [OF refl]) (rule iff)
  also have "\<dots> = filter (\<lambda>s. f s = f l) ?S" by (rule sort_key_stable [symmetric])
  also have "\<dots> = filter (\<lambda>s. f s = f l) b @ [l]" unfolding S by simp
  finally have e: "filter (\<lambda>s. \<forall>y \<in> set xs. f y \<le> f s) xs = filter (\<lambda>s. f s = f l) b @ [l]" .
  have "filter (\<lambda>s. \<forall>y \<in> set xs. f y \<le> f s) (rev xs)
        = rev (filter (\<lambda>s. \<forall>y \<in> set xs. f y \<le> f s) xs)"
    by (rule rev_filter [symmetric])
  also have "\<dots> = l # rev (filter (\<lambda>s. f s = f l) b)" unfolding e by simp
  finally have "find (\<lambda>s. \<forall>y \<in> set xs. f y \<le> f s) (rev xs) = Some l" by (rule find_of_filter)
  then show ?thesis unfolding S by simp
qed

lemma performers_of_summary:
  assumes "shorts \<noteq> []"
  shows "bestPerformer (generateShortsSummary shorts) = Some (hd (sortedByViews shorts))"
    and "worstPerformer (generateShortsSummary shorts) = Some (last (sortedByViews shorts))"
proof -
  let ?S = "sortedByViews shorts"
  have len: "length ?S = length shorts" by (simp add: sortedByViews_def)
  have ne: "?S \<noteq> []" using assms len by (metis length_0_conv)
  have pos: "0 < length shorts" using assms by simp
  have first: "itemAt ?S 0 = Some (hd ?S)"
    using ne by (simp add: itemAt_def hd_conv_nth)
  have "nat (int (length ?S) - 1) = length ?S - 1" by simp
  then have final: "itemAt ?S (int (length ?S) - 1) = Some (last ?S)"
    using ne pos len by (simp add: itemAt_def last_conv_nth)
  show "bestPerformer (generateShortsSummary shorts) = Some (hd ?S)"
    using assms first by (simp add: generateShortsSummary_def Let_def)
  show "worstPerformer (generateShortsSummary shorts) = Some (last ?S)"
    using assms final by (simp add: generateShortsSummary_def Let_def)
qed

text \<open>
  Claim C8, as the specification states it, fails on ties: in the batch \<open>a\<close>, \<open>b\<close>, \<open>c\<close>
  with 5, 5 and 1 views the best performer is \<open>a\<close>, which is neither the last nor the
  first element of the stable ascending sort \<open>c\<close>, \<open>a\<close>, \<open>b\<close>.
\<close>

theorem best_and_worst_performer_counterexample:
  "map vid (sort_key viewCount tiedShorts) = [''c'', ''a'', ''b'']
   \<and> map_option vid (bestPerformer (generateShortsSummary tiedShorts)) = Some ''a''
   \<and> bestPerformer (generateShortsSummary tiedShorts) \<noteq> Some (last (sort_key viewCount tiedShorts))
   \<and> bestPerformer (generateShortsSummary tiedShorts) \<noteq> Some (hd (sort_key viewCount tiedShorts))"
  by code_simp

text \<open>
  Claim C8, amended. In a non-empty batch the best performer is the first item of the
  input that has the maximum view count and the worst performer is the last item of
  the input that has the minimum view count; these are the first and the last element
  of a single stable sort by view count in descending order.
\<close>

theorem best_and_worst_performer:
  assumes "shorts \<noteq> []"
  shows "bestPerformer (generateShortsSummary shorts)
         = find (\<lambda>s. \<forall>y \<in> set shorts. viewCount y \<le> viewCount s) shorts
   \<and> worstPerformer (generateShortsSummary shorts)
         = find (\<lambda>s. \<forall>y \<in> set shorts. viewCount s \<le> viewCount y) (rev shorts)
   \<and> bestPerformer (generateShortsSummary shorts)
         = Some (hd (sort_key (\<lambda>s. - viewCount s) shorts))
   \<and> worstPerformer (generateShortsSummary shorts)
         = Some (last (sort_key (\<lambda>s. - viewCount s) shorts))"
proof -
  have b: "find (\<lambda>s. \<forall>y \<in> set shorts. - viewCount s \<le> - viewCount y) shorts
           = Some (hd (sort_key (\<lambda>s. - viewCount s) shorts))"
    using assms by (rule hd_sort_key_is_first_least)
  have w: "find (\<lambda>s. \<forall>y \<in> set shorts. - viewCount y \<le> - viewCount s) (rev shorts)
           = Some (last (sort_key (\<lambda>s. - viewCount s) shorts))"
    using assms by (rule last_sort_key_is_last_greatest)
  from b w performers_of_summary [OF assms] show ?thesis
    by (simp add: sortedByViews_def)
qed

theorem best_and_worst_performer_witness:
  "tiedShorts \<noteq> []
   \<and> map_option vid (bestPerformer (generateShortsSummary tiedShorts)) = Some ''a''
   \<and> map_option vid (worstPerformer (generateShortsSummary tiedShorts)) = Some ''c''"
proof -
  have ne: "tiedShorts \<noteq> []" by code_simp
  have b: "map_option vid (find (\<lambda>s. \<forall>y \<in> set tiedShorts. viewCount y \<le> viewCount s) tiedShorts)
           = Some ''a''"
    by code_simp
  have w: "map_option vid (find (\<lambda>s. \<forall>y \<in> set tiedShorts. viewCount s \<le> viewCount y) (rev tiedShorts))
           = Some ''c''"
    by code_simp
  from best_and_worst_performer [OF ne] b w ne show ?thesis by simp
qed

subsection \<open>Durations\<close>


























end
